theory Spec2Isabelle
  imports Main "HOL-Library.Word" "HOL-Library.Sublist"
begin

section \<open>Windows container network statistics (cri\_stats\_provider\_windows.go)\<close>

text \<open>
  A shallow embedding of \<^verbatim>\<open>pkg/kubelet/stats/cri_stats_provider_windows.go\<close>.
  The host compute service behind \<^verbatim>\<open>hcsShimInterface\<close> is an external collaborator:
  it is a parameter of every function, and each of its methods is a function on an abstract
  host state \<open>'w\<close> that returns the new host state, so that two calls with the same
  argument may answer differently. Calls to \<^verbatim>\<open>klog\<close> change neither a returned value
  nor the host and are left out. A panic inside a host method is not modelled: every host
  method returns.
\<close>

subsection \<open>Go values\<close>

text \<open>A Go \<^verbatim>\<open>error\<close> value that is not nil, known by the text of its \<^verbatim>\<open>Error()\<close> method.
  A result of type \<^verbatim>\<open>error\<close> is an \<open>error option\<close>, with \<open>None\<close> for nil.\<close>

datatype error = errors_New (Error: string)

text \<open>A Go slice is nil or holds a sequence; \<^verbatim>\<open>len\<close> and \<^verbatim>\<open>range\<close> treat nil as empty,
  and \<^verbatim>\<open>append\<close> never returns nil.\<close>

datatype 'a slice = nil_slice | Slice "'a list"

fun elems :: "'a slice \<Rightarrow> 'a list" where
  "elems nil_slice = []"
| "elems (Slice xs) = xs"

definition len :: "'a slice \<Rightarrow> nat" where
  "len s = length (elems s)"

definition append_slice :: "'a slice \<Rightarrow> 'a \<Rightarrow> 'a slice" where
  "append_slice s x = Slice (elems s @ [x])"

text \<open>\<^verbatim>\<open>time.Time\<close>; its zero value is \<open>0\<close>. \<^verbatim>\<open>metav1.NewTime\<close> wraps it unchanged.\<close>

type_synonym Time = int

definition NewTime :: "Time \<Rightarrow> Time" where
  "NewTime t = t"

subsection \<open>The types of hcsshim and of the stats API that the code reads and writes\<close>

text \<open>Only the fields the code touches are kept; a pointer \<^verbatim>\<open>*uint64\<close> is an option,
  \<open>None\<close> for nil.\<close>

record ComputeSystemQuery =
  Types :: "string slice"

record ContainerProperties =
  ID :: string

record hcsshim_NetworkStats =
  BytesReceived :: "64 word"
  BytesSent :: "64 word"
  EndpointId :: string

record Statistics =
  Timestamp :: Time
  Network :: "hcsshim_NetworkStats slice"

record HNSEndpoint =
  Name :: string

record InterfaceStats =
  Name :: string
  RxBytes :: "64 word option"
  TxBytes :: "64 word option"

record statsapi_NetworkStats =
  Time :: Time
  InterfaceStats :: InterfaceStats
  Interfaces :: "InterfaceStats slice"

text \<open>The zero values of the two structs that the code leaves unset on some path.\<close>

definition zero_Statistics :: Statistics where
  "zero_Statistics = \<lparr>Timestamp = 0, Network = nil_slice\<rparr>"

definition zero_InterfaceStats :: InterfaceStats where
  "zero_InterfaceStats = \<lparr>Name = [], RxBytes = None, TxBytes = None\<rparr>"

subsection \<open>The host interface\<close>

text \<open>
  \<^verbatim>\<open>hcsshim.Container\<close>, as far as the code uses it: \<^verbatim>\<open>Statistics()\<close> returns a struct and
  an error, \<^verbatim>\<open>Close()\<close> an error. \<^verbatim>\<open>hcsShimInterface\<close> has the three methods of the source.
  \<^verbatim>\<open>GetHNSEndpointByID\<close> and \<^verbatim>\<open>OpenContainer\<close> return a pointer or an interface value that
  the code dereferences as soon as the error is nil, so they return either an error or a value.
\<close>

record 'w Container =
  Statistics :: "'w \<Rightarrow> (Statistics \<times> error option) \<times> 'w"
  Close :: "'w \<Rightarrow> error option \<times> 'w"

record 'w hcsShimInterface =
  GetContainers :: "ComputeSystemQuery \<Rightarrow> 'w \<Rightarrow> (ContainerProperties slice \<times> error option) \<times> 'w"
  GetHNSEndpointByID :: "string \<Rightarrow> 'w \<Rightarrow> (error + HNSEndpoint) \<times> 'w"
  OpenContainer :: "string \<Rightarrow> 'w \<Rightarrow> (error + 'w Container) \<times> 'w"

text \<open>\<^verbatim>\<open>criStatsProvider\<close>: the injected host, or nil.\<close>

record 'w criStatsProvider =
  hcsshimInterface :: "'w hcsShimInterface option"

text \<open>\<^verbatim>\<open>newHcsShim\<close>: the injected host when there is one, \<^verbatim>\<open>windowshim{}\<close> (the real host,
  a parameter here) otherwise.\<close>

definition newHcsShim :: "'w hcsShimInterface \<Rightarrow> 'w criStatsProvider \<Rightarrow> 'w hcsShimInterface" where
  "newHcsShim windowshim p =
     (case hcsshimInterface p of None \<Rightarrow> windowshim | Some shim \<Rightarrow> shim)"

subsection \<open>fetchContainerStats\<close>

text \<open>\<^verbatim>\<open>fmt.Errorf("failed to close container after error %v; close error: %v", err, closeErr)\<close>\<close>

definition Errorf_close :: "error \<Rightarrow> error \<Rightarrow> error" where
  "Errorf_close err closeErr =
     errors_New (''failed to close container after error '' @ Error err
                 @ ''; close error: '' @ Error closeErr)"

text \<open>
  The named results \<^verbatim>\<open>(stats, err)\<close> are returned as a pair. When \<^verbatim>\<open>OpenContainer\<close> fails
  the function returns before the \<^verbatim>\<open>defer\<close> is registered, with \<^verbatim>\<open>stats\<close> still zero.
  Otherwise \<^verbatim>\<open>return container.Statistics()\<close> sets both results and the deferred function
  then runs \<^verbatim>\<open>Close\<close> and may replace \<^verbatim>\<open>err\<close>.
\<close>

definition fetchContainerStats ::
  "'w hcsShimInterface \<Rightarrow> ContainerProperties \<Rightarrow> 'w \<Rightarrow> (Statistics \<times> error option) \<times> 'w" where
  "fetchContainerStats shim c w =
     (case OpenContainer shim (ID c) w of
        (Inl err, w1) \<Rightarrow> ((zero_Statistics, Some err), w1)
      | (Inr container, w1) \<Rightarrow>
          (case Statistics container w1 of
             ((stats, err), w2) \<Rightarrow>
               (case Close container w2 of
                  (None, w3) \<Rightarrow> ((stats, err), w3)
                | (Some closeErr, w3) \<Rightarrow>
                    (case err of
                       Some e \<Rightarrow> ((stats, Some (Errorf_close e closeErr)), w3)
                     | None \<Rightarrow> ((stats, Some closeErr), w3)))))"

subsection \<open>hcsStatsToInterfaceStats and hcsStatsToNetworkStats\<close>

text \<open>The result \<^verbatim>\<open>(*InterfaceStats, error)\<close> is \<^verbatim>\<open>(nil, err)\<close> or a fresh struct and nil.
  \<^verbatim>\<open>stat\<close> is the function's own copy, so the two pointers hold the counters of this call.\<close>

definition hcsStatsToInterfaceStats ::
  "'w hcsShimInterface \<Rightarrow> hcsshim_NetworkStats \<Rightarrow> 'w \<Rightarrow> (error + InterfaceStats) \<times> 'w" where
  "hcsStatsToInterfaceStats shim stat w =
     (case GetHNSEndpointByID shim (EndpointId stat) w of
        (Inl err, w1) \<Rightarrow> (Inl err, w1)
      | (Inr endpoint, w1) \<Rightarrow>
          (Inr \<lparr>Name = HNSEndpoint.Name endpoint,
                RxBytes = Some (BytesReceived stat),
                TxBytes = Some (BytesSent stat)\<rparr>, w1))"

text \<open>The loop \<^verbatim>\<open>for _, stat := range hcsStats\<close>, on the two variables it changes:
  \<^verbatim>\<open>result\<close> and the set \<^verbatim>\<open>adapters\<close>.\<close>

fun hcsStats_range ::
  "'w hcsShimInterface \<Rightarrow> hcsshim_NetworkStats list \<Rightarrow> statsapi_NetworkStats \<Rightarrow> string set \<Rightarrow> 'w
     \<Rightarrow> (statsapi_NetworkStats \<times> string set) \<times> 'w" where
  "hcsStats_range shim [] result adapters w = ((result, adapters), w)"
| "hcsStats_range shim (stat # rest) result adapters w =
     (case hcsStatsToInterfaceStats shim stat w of
        (Inl err, w1) \<Rightarrow> hcsStats_range shim rest result adapters w1
      | (Inr iStat, w1) \<Rightarrow>
          if InterfaceStats.Name iStat \<in> adapters
          then hcsStats_range shim rest result adapters w1
          else hcsStats_range shim rest
                 (result\<lparr>Interfaces := append_slice (Interfaces result) iStat\<rparr>)
                 (insert (InterfaceStats.Name iStat) adapters) w1)"

text \<open>The function returns a pointer to the struct it builds: \<open>Some\<close> of the struct, where
  \<open>None\<close> would be the nil pointer.\<close>

definition hcsStatsToNetworkStats ::
  "'w hcsShimInterface \<Rightarrow> Time \<Rightarrow> hcsshim_NetworkStats slice \<Rightarrow> 'w
     \<Rightarrow> statsapi_NetworkStats option \<times> 'w" where
  "hcsStatsToNetworkStats shim timestamp hcsStats w =
     (case hcsStats_range shim (elems hcsStats)
             \<lparr>Time = NewTime timestamp, InterfaceStats = zero_InterfaceStats, Interfaces = Slice []\<rparr>
             {} w of
        ((result, adapters), w1) \<Rightarrow>
          (if len (Interfaces result) > 0
           then (Some (result\<lparr>InterfaceStats := elems (Interfaces result) ! 0\<rparr>), w1)
           else (Some result, w1)))"

subsection \<open>listContainerNetworkStats\<close>

text \<open>The loop \<^verbatim>\<open>for _, c := range containers\<close>, on the map \<^verbatim>\<open>stats\<close>.\<close>

fun containers_range ::
  "'w hcsShimInterface \<Rightarrow> ContainerProperties list \<Rightarrow> (string \<rightharpoonup> statsapi_NetworkStats option) \<Rightarrow> 'w
     \<Rightarrow> (string \<rightharpoonup> statsapi_NetworkStats option) \<times> 'w" where
  "containers_range shim [] stats w = (stats, w)"
| "containers_range shim (c # rest) stats w =
     (case fetchContainerStats shim c w of
        ((cstats, Some err), w1) \<Rightarrow> containers_range shim rest stats w1
      | ((cstats, None), w1) \<Rightarrow>
          if len (Network cstats) > 0
          then (case hcsStatsToNetworkStats shim (Timestamp cstats) (Network cstats) w1 of
                  (r, w2) \<Rightarrow> containers_range shim rest (stats(ID c \<mapsto> r)) w2)
          else containers_range shim rest stats w1)"

text \<open>The result \<^verbatim>\<open>(map, error)\<close> as a pair; \<open>None\<close> is the nil map.\<close>

definition listContainerNetworkStats ::
  "'w hcsShimInterface \<Rightarrow> 'w criStatsProvider \<Rightarrow> 'w
     \<Rightarrow> ((string \<rightharpoonup> statsapi_NetworkStats option) option \<times> error option) \<times> 'w" where
  "listContainerNetworkStats windowshim p w =
     (let shim = newHcsShim windowshim p in
      case GetContainers shim \<lparr>Types = Slice [''Container'']\<rparr> w of
        ((containers, Some err), w1) \<Rightarrow> ((None, Some err), w1)
      | ((containers, None), w1) \<Rightarrow>
          (case containers_range shim (elems containers) Map.empty w1 of
             (stats, w2) \<Rightarrow> ((Some stats, None), w2)))"

subsection \<open>Observing the calls made on a host\<close>

text \<open>
  To count invocations, any host is wrapped into one that answers as the host does and
  appends every call to a log kept beside the host state. A handle is named by the position
  of the \<^verbatim>\<open>OpenContainer\<close> call that returned it, so two handles never share a name.
\<close>

datatype call =
    GetContainers_call
  | GetHNSEndpointByID_call string
  | OpenContainer_call string
  | Statistics_call nat
  | Close_call nat

definition spy_Container :: "nat \<Rightarrow> 'w Container \<Rightarrow> ('w \<times> call list) Container" where
  "spy_Container h container =
     \<lparr>Statistics = (\<lambda>(w, tr). case Statistics container w of
                        (r, w1) \<Rightarrow> (r, (w1, tr @ [Statistics_call h]))),
      Close = (\<lambda>(w, tr). case Close container w of
                        (r, w1) \<Rightarrow> (r, (w1, tr @ [Close_call h])))\<rparr>"

definition spy :: "'w hcsShimInterface \<Rightarrow> ('w \<times> call list) hcsShimInterface" where
  "spy shim =
     \<lparr>GetContainers = (\<lambda>q (w, tr). case GetContainers shim q w of
                        (r, w1) \<Rightarrow> (r, (w1, tr @ [GetContainers_call]))),
      GetHNSEndpointByID = (\<lambda>i (w, tr). case GetHNSEndpointByID shim i w of
                        (r, w1) \<Rightarrow> (r, (w1, tr @ [GetHNSEndpointByID_call i]))),
      OpenContainer = (\<lambda>i (w, tr). case OpenContainer shim i w of
                        (Inl err, w1) \<Rightarrow> (Inl err, (w1, tr @ [OpenContainer_call i]))
                      | (Inr container, w1) \<Rightarrow>
                          (Inr (spy_Container (length tr) container),
                           (w1, tr @ [OpenContainer_call i])))\<rparr>"

fun is_Close :: "call \<Rightarrow> bool" where
  "is_Close (Close_call h) = True"
| "is_Close _ = False"

subsection \<open>The resolutions of one aggregation, in order\<close>

text \<open>
  \<open>resolve_all\<close> runs \<open>hcsStatsToInterfaceStats\<close> over the counters in input order, threading
  the host state exactly as the loop of \<open>hcsStatsToNetworkStats\<close> does, and keeps every
  answer. \<open>resolved\<close> are the interfaces of the counters whose endpoint was found.
\<close>

fun resolve_all ::
  "'w hcsShimInterface \<Rightarrow> hcsshim_NetworkStats list \<Rightarrow> 'w \<Rightarrow> (error + InterfaceStats) list \<times> 'w" where
  "resolve_all shim [] w = ([], w)"
| "resolve_all shim (stat # rest) w =
     (case hcsStatsToInterfaceStats shim stat w of
        (r, w1) \<Rightarrow> (case resolve_all shim rest w1 of (rs, w2) \<Rightarrow> (r # rs, w2)))"

fun successes :: "('e + 'a) list \<Rightarrow> 'a list" where
  "successes [] = []"
| "successes (Inl e # rs) = successes rs"
| "successes (Inr x # rs) = x # successes rs"

definition resolved ::
  "'w hcsShimInterface \<Rightarrow> hcsshim_NetworkStats slice \<Rightarrow> 'w \<Rightarrow> InterfaceStats list" where
  "resolved shim hcsStats w = successes (fst (resolve_all shim (elems hcsStats) w))"

text \<open>The policy "first occurrence of a name wins", as a function on the resolved
  interfaces alone; \<open>seen\<close> are the names already taken.\<close>

fun first_wins :: "string set \<Rightarrow> InterfaceStats list \<Rightarrow> InterfaceStats list" where
  "first_wins seen [] = []"
| "first_wins seen (i # rest) =
     (if InterfaceStats.Name i \<in> seen then first_wins seen rest
      else i # first_wins (insert (InterfaceStats.Name i) seen) rest)"

subsection \<open>A sample host\<close>

text \<open>
  A host whose state counts the calls it has answered. Endpoints \<open>ep1\<close> and \<open>ep4\<close> both
  belong to the adapter \<open>eth0\<close>, \<open>ep3\<close> to \<open>eth1\<close>, and any other endpoint is unknown.
  Container \<open>c1\<close> has four counters, \<open>c2\<close> cannot be opened, \<open>c3\<close> has one counter, \<open>c4\<close>
  has none, \<open>c5\<close> fails both to answer and to close, \<open>c6\<close> answers but fails to close, and
  the only endpoint of \<open>c7\<close> is unknown.
\<close>

definition sample_Container :: "Statistics \<times> error option \<Rightarrow> error option \<Rightarrow> nat Container" where
  "sample_Container st cl =
     \<lparr>Statistics = (\<lambda>w. (st, Suc w)), Close = (\<lambda>w. (cl, Suc w))\<rparr>"

definition counter :: "string \<Rightarrow> 64 word \<Rightarrow> 64 word \<Rightarrow> hcsshim_NetworkStats" where
  "counter ep rx tx = \<lparr>BytesReceived = rx, BytesSent = tx, EndpointId = ep\<rparr>"

definition sample_endpoint :: "string \<Rightarrow> error + HNSEndpoint" where
  "sample_endpoint i =
     (if i = ''ep1'' \<or> i = ''ep4'' then Inr \<lparr>HNSEndpoint.Name = ''eth0''\<rparr>
      else if i = ''ep3'' then Inr \<lparr>HNSEndpoint.Name = ''eth1''\<rparr>
      else Inl (errors_New ''endpoint not found''))"

definition c1_counters :: "hcsshim_NetworkStats list" where
  "c1_counters =
     [counter ''ep1'' 100 50, counter ''ep2'' 7 8, counter ''ep3'' 30 40, counter ''ep4'' 1 2]"

definition sample_open :: "string \<Rightarrow> error + nat Container" where
  "sample_open i =
     (if i = ''c1'' then
        Inr (sample_Container (\<lparr>Timestamp = 1, Network = Slice c1_counters\<rparr>, None) None)
      else if i = ''c3'' then
        Inr (sample_Container (\<lparr>Timestamp = 2, Network = Slice [counter ''ep3'' 5 6]\<rparr>, None) None)
      else if i = ''c4'' then
        Inr (sample_Container (\<lparr>Timestamp = 3, Network = nil_slice\<rparr>, None) None)
      else if i = ''c5'' then
        Inr (sample_Container (zero_Statistics, Some (errors_New ''no statistics''))
               (Some (errors_New ''close failed'')))
      else if i = ''c6'' then
        Inr (sample_Container (\<lparr>Timestamp = 4, Network = Slice [counter ''ep1'' 9 9]\<rparr>, None)
               (Some (errors_New ''close failed'')))
      else if i = ''c7'' then
        Inr (sample_Container (\<lparr>Timestamp = 5, Network = Slice [counter ''ep2'' 3 4]\<rparr>, None) None)
      else Inl (errors_New ''container not found''))"

definition sample_shim :: "ContainerProperties slice \<times> error option \<Rightarrow> nat hcsShimInterface" where
  "sample_shim enumeration =
     \<lparr>GetContainers = (\<lambda>q w. (enumeration, Suc w)),
      GetHNSEndpointByID = (\<lambda>i w. (sample_endpoint i, Suc w)),
      OpenContainer = (\<lambda>i w. (sample_open i, Suc w))\<rparr>"

definition containers_of :: "string list \<Rightarrow> ContainerProperties slice" where
  "containers_of ids = Slice (map (\<lambda>i. \<lparr>ID = i\<rparr>) ids)"

definition sample_provider :: "string list \<Rightarrow> nat criStatsProvider" where
  "sample_provider ids = \<lparr>hcsshimInterface = Some (sample_shim (containers_of ids, None))\<rparr>"

text \<open>A host on which every call fails, in the place of the real host of a provider that
  has one injected.\<close>

definition down_shim :: "nat hcsShimInterface" where
  "down_shim =
     \<lparr>GetContainers = (\<lambda>q w. ((nil_slice, Some (errors_New ''host down'')), Suc w)),
      GetHNSEndpointByID = (\<lambda>i w. (Inl (errors_New ''host down''), Suc w)),
      OpenContainer = (\<lambda>i w. (Inl (errors_New ''host down''), Suc w))\<rparr>"

text \<open>What the sample host answers for \<open>c1\<close> and \<open>c3\<close>.\<close>

definition c1_interfaces :: "InterfaceStats list" where
  "c1_interfaces =
     [\<lparr>Name = ''eth0'', RxBytes = Some 100, TxBytes = Some 50\<rparr>,
      \<lparr>Name = ''eth1'', RxBytes = Some 30, TxBytes = Some 40\<rparr>]"

definition c1_result :: statsapi_NetworkStats where
  "c1_result =
     \<lparr>Time = 1, InterfaceStats = \<lparr>Name = ''eth0'', RxBytes = Some 100, TxBytes = Some 50\<rparr>,
      Interfaces = Slice c1_interfaces\<rparr>"

definition c3_result :: statsapi_NetworkStats where
  "c3_result =
     \<lparr>Time = 2, InterfaceStats = \<lparr>Name = ''eth1'', RxBytes = Some 5, TxBytes = Some 6\<rparr>,
      Interfaces = Slice [\<lparr>Name = ''eth1'', RxBytes = Some 5, TxBytes = Some 6\<rparr>]\<rparr>"

section \<open>Properties\<close>

subsection \<open>Auxiliary facts about fetchContainerStats and the observed calls\<close>

lemma fetchContainerStats_open_fails:
  "OpenContainer shim (ID c) w = (Inl err, w1) \<Longrightarrow>
   fetchContainerStats shim c w = ((zero_Statistics, Some err), w1)"
  by (simp add: fetchContainerStats_def)

lemma fetchContainerStats_opened:
  assumes "OpenContainer shim (ID c) w = (Inr container, w1)"
      and "Statistics container w1 = ((stats, err), w2)"
      and "Close container w2 = (cl, w3)"
  shows "fetchContainerStats shim c w =
           ((stats, case cl of None \<Rightarrow> err
                    | Some closeErr \<Rightarrow>
                        (case err of Some e \<Rightarrow> Some (Errorf_close e closeErr)
                         | None \<Rightarrow> Some closeErr)), w3)"
  using assms by (simp add: fetchContainerStats_def split: option.splits)

lemma spy_OpenContainer:
  "OpenContainer (spy shim) i (w, tr) =
     (case OpenContainer shim i w of
        (Inl err, w1) \<Rightarrow> (Inl err, (w1, tr @ [OpenContainer_call i]))
      | (Inr container, w1) \<Rightarrow>
          (Inr (spy_Container (length tr) container), (w1, tr @ [OpenContainer_call i])))"
  by (simp add: spy_def)

lemma spy_Statistics:
  "Statistics (spy_Container h container) (w, tr) =
     (fst (Statistics container w), (snd (Statistics container w), tr @ [Statistics_call h]))"
  by (simp add: spy_Container_def split: prod.splits)

lemma spy_Close:
  "Close (spy_Container h container) (w, tr) =
     (fst (Close container w), (snd (Close container w), tr @ [Close_call h]))"
  by (simp add: spy_Container_def split: prod.splits)

lemma fetch_spy:
  "fetchContainerStats (spy shim) c (w, tr) =
     (fst (fetchContainerStats shim c w),
      (snd (fetchContainerStats shim c w),
       tr @ (case fst (OpenContainer shim (ID c) w) of
               Inl err \<Rightarrow> [OpenContainer_call (ID c)]
             | Inr container \<Rightarrow>
                 [OpenContainer_call (ID c), Statistics_call (length tr), Close_call (length tr)])))"
  by (simp add: fetchContainerStats_def spy_OpenContainer spy_Statistics spy_Close
      split: prod.splits sum.splits option.splits)

subsection \<open>Auxiliary facts about the aggregation loop\<close>

text \<open>The policy \<open>first_wins\<close> keeps one interface per name, the first one.\<close>

lemma first_wins_subset: "set (first_wins seen xs) \<subseteq> set xs"
  by (induction xs arbitrary: seen) auto

lemma first_wins_not_seen:
  "i \<in> set (first_wins seen xs) \<Longrightarrow> InterfaceStats.Name i \<notin> seen"
  by (induction xs arbitrary: seen) (auto split: if_splits)

lemma first_wins_distinct: "distinct (map InterfaceStats.Name (first_wins seen xs))"
proof (induction xs arbitrary: seen)
  case Nil
  show ?case by simp
next
  case (Cons x xs)
  have "\<forall>i \<in> set (first_wins (insert (InterfaceStats.Name x) seen) xs).
          InterfaceStats.Name i \<noteq> InterfaceStats.Name x"
    using first_wins_not_seen by blast
  then have "InterfaceStats.Name x
               \<notin> set (map InterfaceStats.Name (first_wins (insert (InterfaceStats.Name x) seen) xs))"
    by (simp add: image_iff) metis
  with Cons.IH show ?case by simp
qed

lemma first_wins_filter_seen:
  "n \<in> seen \<Longrightarrow> filter (\<lambda>i. InterfaceStats.Name i = n) (first_wins seen xs) = []"
  using first_wins_not_seen [of _ seen xs] by (auto simp: filter_empty_conv)

lemma first_wins_filter:
  "j \<in> set xs \<Longrightarrow> InterfaceStats.Name j \<notin> seen \<Longrightarrow>
   \<exists>first. find (\<lambda>i. InterfaceStats.Name i = InterfaceStats.Name j) xs = Some first
     \<and> filter (\<lambda>i. InterfaceStats.Name i = InterfaceStats.Name j) (first_wins seen xs) = [first]"
proof (induction xs arbitrary: seen)
  case Nil
  then show ?case by simp
next
  case (Cons x xs)
  show ?case
  proof (cases "InterfaceStats.Name x = InterfaceStats.Name j")
    case True
    then have "InterfaceStats.Name x \<notin> seen" using Cons.prems by simp
    then show ?thesis
      using True first_wins_filter_seen [of "InterfaceStats.Name j" "insert (InterfaceStats.Name x) seen" xs]
      by simp
  next
    case False
    then have j: "j \<in> set xs" using Cons.prems by auto
    show ?thesis
    proof (cases "InterfaceStats.Name x \<in> seen")
      case True
      then show ?thesis using False Cons.IH [OF j Cons.prems(2)] by simp
    next
      case False2: False
      have "InterfaceStats.Name j \<notin> insert (InterfaceStats.Name x) seen"
        using False Cons.prems by auto
      from Cons.IH [OF j this] show ?thesis using False False2 by simp
    qed
  qed
qed

text \<open>The loop of \<open>hcsStatsToNetworkStats\<close> computes \<open>first_wins\<close> of the resolved interfaces
  and leaves the host in the state that the resolutions leave it in.\<close>

lemma hcsStats_range_first_wins:
  "hcsStats_range shim stats \<lparr>Time = t, InterfaceStats = prim, Interfaces = Slice acc\<rparr> adapters w =
     ((\<lparr>Time = t, InterfaceStats = prim,
        Interfaces = Slice (acc @ first_wins adapters (successes (fst (resolve_all shim stats w))))\<rparr>,
       adapters \<union> InterfaceStats.Name ` set (successes (fst (resolve_all shim stats w)))),
      snd (resolve_all shim stats w))"
proof (induction stats arbitrary: acc adapters w)
  case Nil
  show ?case by simp
next
  case (Cons stat rest)
  obtain r w1 where r: "hcsStatsToInterfaceStats shim stat w = (r, w1)"
    by (cases "hcsStatsToInterfaceStats shim stat w")
  show ?case
  proof (cases r)
    case (Inl err)
    with r Cons.IH [of acc adapters w1] show ?thesis
      by (simp split: prod.splits)
  next
    case (Inr iStat)
    show ?thesis
    proof (cases "InterfaceStats.Name iStat \<in> adapters")
      case True
      with r Inr Cons.IH [of acc adapters w1] show ?thesis
        by (auto split: prod.splits)
    next
      case False
      with r Inr Cons.IH [of "acc @ [iStat]" "insert (InterfaceStats.Name iStat) adapters" w1]
      show ?thesis
        by (auto simp: append_slice_def split: prod.splits)
    qed
  qed
qed

lemma hcsStatsToNetworkStats_eq:
  "hcsStatsToNetworkStats shim timestamp hcsStats w =
     (Some \<lparr>Time = timestamp,
            InterfaceStats = (case first_wins {} (resolved shim hcsStats w) of
                                [] \<Rightarrow> zero_InterfaceStats | i # rest \<Rightarrow> i),
            Interfaces = Slice (first_wins {} (resolved shim hcsStats w))\<rparr>,
      snd (resolve_all shim (elems hcsStats) w))"
  by (simp add: hcsStatsToNetworkStats_def hcsStats_range_first_wins resolved_def len_def
      NewTime_def split: list.splits)

lemma hcsStatsToInterfaceStats_found:
  "GetHNSEndpointByID shim (EndpointId stat) w = (Inr endpoint, w1) \<Longrightarrow>
   hcsStatsToInterfaceStats shim stat w =
     (Inr \<lparr>Name = HNSEndpoint.Name endpoint, RxBytes = Some (BytesReceived stat),
           TxBytes = Some (BytesSent stat)\<rparr>, w1)"
  by (simp add: hcsStatsToInterfaceStats_def)

lemma hcsStatsToInterfaceStats_fails:
  "GetHNSEndpointByID shim (EndpointId stat) w = (Inl err, w1) \<Longrightarrow>
   hcsStatsToInterfaceStats shim stat w = (Inl err, w1)"
  by (simp add: hcsStatsToInterfaceStats_def)

lemma successes_all_failed: "list_all isl rs \<Longrightarrow> successes rs = []"
  by (induction rs rule: successes.induct) auto

text \<open>A counter whose endpoint is not found is passed over, and the counters after it are
  resolved as before.\<close>

lemma successes_append: "successes (xs @ ys) = successes xs @ successes ys"
  by (induction xs rule: successes.induct) simp_all

lemma resolve_all_append:
  "resolve_all shim (xs @ ys) w =
     (fst (resolve_all shim xs w) @ fst (resolve_all shim ys (snd (resolve_all shim xs w))),
      snd (resolve_all shim ys (snd (resolve_all shim xs w))))"
  by (induction xs arbitrary: w) (simp_all split: prod.splits)

lemma hcsStats_range_skips:
  "GetHNSEndpointByID shim (EndpointId stat) v = (Inl err, v1) \<Longrightarrow>
   hcsStats_range shim (stat # rest) result adapters v = hcsStats_range shim rest result adapters v1"
  by (simp add: hcsStatsToInterfaceStats_fails)

lemma resolved_skips:
  assumes "elems counters = before @ bad # after"
      and "GetHNSEndpointByID shim (EndpointId bad) (snd (resolve_all shim before v)) = (Inl err, v2)"
  shows "resolved shim counters v = resolved shim (Slice before) v @ resolved shim (Slice after) v2"
proof -
  have "resolve_all shim (bad # after) (snd (resolve_all shim before v)) =
          (Inl err # fst (resolve_all shim after v2), snd (resolve_all shim after v2))"
    using hcsStatsToInterfaceStats_fails [OF assms(2)] by (simp split: prod.splits)
  then show ?thesis
    by (simp add: resolved_def assms(1) resolve_all_append successes_append)
qed

subsection \<open>Auxiliary facts about the loop over the containers\<close>

lemma containers_range_fetch_fails:
  "fetchContainerStats shim c w = ((cstats, Some err), w1) \<Longrightarrow>
   containers_range shim (c # rest) stats w = containers_range shim rest stats w1"
  by simp

lemma containers_range_no_counters:
  "fetchContainerStats shim c w = ((cstats, None), w1) \<Longrightarrow> len (Network cstats) = 0 \<Longrightarrow>
   containers_range shim (c # rest) stats w = containers_range shim rest stats w1"
  by simp

lemma containers_range_entry:
  "fetchContainerStats shim c w = ((cstats, None), w1) \<Longrightarrow> 0 < len (Network cstats) \<Longrightarrow>
   hcsStatsToNetworkStats shim (Timestamp cstats) (Network cstats) w1 = (r, w2) \<Longrightarrow>
   containers_range shim (c # rest) stats w = containers_range shim rest (stats(ID c \<mapsto> r)) w2"
  by simp

lemma containers_range_append:
  "containers_range shim (xs @ ys) stats w =
     (case containers_range shim xs stats w of (stats1, w1) \<Rightarrow> containers_range shim ys stats1 w1)"
proof (induction xs arbitrary: stats w)
  case Nil
  show ?case by simp
next
  case (Cons c xs)
  obtain cstats err w1 where f: "fetchContainerStats shim c w = ((cstats, err), w1)"
    by (metis prod.exhaust)
  show ?case
  proof (cases "err = None \<and> 0 < len (Network cstats)")
    case True
    then have f': "fetchContainerStats shim c w = ((cstats, None), w1)" and n: "0 < len (Network cstats)"
      using f by simp_all
    obtain r w2 where a: "hcsStatsToNetworkStats shim (Timestamp cstats) (Network cstats) w1 = (r, w2)"
      by (cases "hcsStatsToNetworkStats shim (Timestamp cstats) (Network cstats) w1")
    have "containers_range shim ((c # xs) @ ys) stats w =
            containers_range shim (xs @ ys) (stats(ID c \<mapsto> r)) w2"
      unfolding append_Cons by (rule containers_range_entry [OF f' n a])
    also have "\<dots> = (case containers_range shim xs (stats(ID c \<mapsto> r)) w2 of
                         (stats1, v) \<Rightarrow> containers_range shim ys stats1 v)"
      by (rule Cons.IH)
    also have "containers_range shim xs (stats(ID c \<mapsto> r)) w2 = containers_range shim (c # xs) stats w"
      by (rule containers_range_entry [OF f' n a, symmetric])
    finally show ?thesis .
  next
    case False
    have skip: "\<And>rest. containers_range shim (c # rest) stats w = containers_range shim rest stats w1"
      using f False by (cases err) auto
    show ?thesis
      unfolding append_Cons skip by (rule Cons.IH)
  qed
qed

lemma containers_range_other:
  "k \<notin> ID ` set cs \<Longrightarrow> fst (containers_range shim cs stats w) k = stats k"
proof (induction cs arbitrary: stats w)
  case Nil
  show ?case by simp
next
  case (Cons c cs)
  then have k: "k \<notin> ID ` set cs" and kc: "k \<noteq> ID c" by auto
  show ?case
    by (simp add: Cons.IH [OF k] kc split: prod.splits option.splits)
qed

lemma listContainerNetworkStats_enumerated:
  "GetContainers (newHcsShim windowshim p) \<lparr>Types = Slice [''Container'']\<rparr> w = ((cs, None), w1) \<Longrightarrow>
   listContainerNetworkStats windowshim p w =
     ((Some (fst (containers_range (newHcsShim windowshim p) (elems cs) Map.empty w1)), None),
      snd (containers_range (newHcsShim windowshim p) (elems cs) Map.empty w1))"
  by (simp add: listContainerNetworkStats_def Let_def split: prod.splits)

subsection \<open>Evaluating the sample host\<close>

lemmas sample_defs =
  sample_shim_def sample_open_def sample_endpoint_def sample_Container_def sample_provider_def
  containers_of_def c1_counters_def counter_def down_shim_def newHcsShim_def

lemmas code_defs =
  fetchContainerStats_def hcsStatsToInterfaceStats_def hcsStatsToNetworkStats_def
  listContainerNetworkStats_def append_slice_def len_def NewTime_def zero_Statistics_def
  zero_InterfaceStats_def Errorf_close_def

lemma sample_c1_aggregate:
  "hcsStatsToNetworkStats (sample_shim e) 1 (Slice c1_counters) w =
     (Some \<lparr>Time = 1, InterfaceStats = \<lparr>Name = ''eth0'', RxBytes = Some 100, TxBytes = Some 50\<rparr>,
            Interfaces = Slice c1_interfaces\<rparr>, Suc (Suc (Suc (Suc w))))"
  by (simp add: code_defs sample_defs c1_interfaces_def)

lemma sample_c1_resolved:
  "resolved (sample_shim e) (Slice c1_counters) w =
     [\<lparr>Name = ''eth0'', RxBytes = Some 100, TxBytes = Some 50\<rparr>,
      \<lparr>Name = ''eth1'', RxBytes = Some 30, TxBytes = Some 40\<rparr>,
      \<lparr>Name = ''eth0'', RxBytes = Some 1, TxBytes = Some 2\<rparr>]"
  by (simp add: resolved_def code_defs sample_defs)

subsection \<open>The handle is released exactly once\<close>

text \<open>
  C1. On any host, observed through \<open>spy\<close>, one call of \<open>fetchContainerStats\<close> makes exactly
  these calls: when \<^verbatim>\<open>OpenContainer\<close> fails, that call alone, so \<^verbatim>\<open>Close\<close> is never invoked;
  when it succeeds, \<^verbatim>\<open>OpenContainer\<close>, then \<^verbatim>\<open>Statistics\<close> on the handle just returned, then
  \<^verbatim>\<open>Close\<close> on that same handle, so \<^verbatim>\<open>Close\<close> is invoked exactly once, whatever
  \<^verbatim>\<open>Statistics\<close> and \<^verbatim>\<open>Close\<close> answer. Observing changes neither the result nor the host.
\<close>

theorem fetchContainerStats_Close_once:
  "snd (snd (fetchContainerStats (spy shim) c (w, tr))) =
     tr @ (case fst (OpenContainer shim (ID c) w) of
             Inl err \<Rightarrow> [OpenContainer_call (ID c)]
           | Inr container \<Rightarrow>
               [OpenContainer_call (ID c), Statistics_call (length tr), Close_call (length tr)])
   \<and> filter is_Close (drop (length tr) (snd (snd (fetchContainerStats (spy shim) c (w, tr))))) =
       (case fst (OpenContainer shim (ID c) w) of
          Inl err \<Rightarrow> []
        | Inr container \<Rightarrow> [Close_call (length tr)])
   \<and> (fst (fetchContainerStats (spy shim) c (w, tr)),
       fst (snd (fetchContainerStats (spy shim) c (w, tr)))) = fetchContainerStats shim c w"
  by (simp add: fetch_spy split: sum.splits)

text \<open>On the sample host: \<open>c5\<close> is opened, fails to answer and is closed once; \<open>c2\<close> cannot
  be opened and nothing is closed.\<close>

theorem fetchContainerStats_Close_once_witness:
  "snd (snd (fetchContainerStats (spy (sample_shim (nil_slice, None))) \<lparr>ID = ''c5''\<rparr>
               (1, [GetContainers_call]))) =
     [GetContainers_call, OpenContainer_call ''c5'', Statistics_call 1, Close_call 1]
   \<and> snd (snd (fetchContainerStats (spy (sample_shim (nil_slice, None))) \<lparr>ID = ''c2''\<rparr>
               (1, [GetContainers_call]))) =
     [GetContainers_call, OpenContainer_call ''c2'']"
  using fetchContainerStats_Close_once [of "sample_shim (nil_slice, None)" "\<lparr>ID = ''c5''\<rparr>" 1 "[GetContainers_call]"]
    fetchContainerStats_Close_once [of "sample_shim (nil_slice, None)" "\<lparr>ID = ''c2''\<rparr>" 1 "[GetContainers_call]"]
  by (simp add: sample_defs)

subsection \<open>Both failures are named\<close>

text \<open>
  C2. If the container is opened, \<^verbatim>\<open>Statistics\<close> fails with \<open>err\<close> and \<^verbatim>\<open>Close\<close> fails with
  \<open>closeErr\<close>, then \<open>fetchContainerStats\<close> returns an error whose text is
  \<^verbatim>\<open>failed to close container after error <err>; close error: <closeErr>\<close>: the texts of
  both causes occur in it.
\<close>

theorem fetchContainerStats_error_chaining:
  assumes "OpenContainer shim (ID c) w = (Inr container, w1)"
      and "Statistics container w1 = ((stats, Some err), w2)"
      and "Close container w2 = (Some closeErr, w3)"
  shows "\<exists>e. snd (fst (fetchContainerStats shim c w)) = Some e
           \<and> Error e = ''failed to close container after error '' @ Error err
                        @ ''; close error: '' @ Error closeErr
           \<and> sublist (Error err) (Error e) \<and> sublist (Error closeErr) (Error e)"
proof -
  let ?e = "Errorf_close err closeErr"
  have "snd (fst (fetchContainerStats shim c w)) = Some ?e"
    using fetchContainerStats_opened [OF assms] by simp
  moreover have "Error ?e = ''failed to close container after error '' @ Error err
                        @ ''; close error: '' @ Error closeErr"
    by (simp add: Errorf_close_def)
  moreover have "sublist (Error err) (Error ?e)"
    unfolding Errorf_close_def error.sel sublist_def by blast
  moreover have "sublist (Error closeErr) (Error ?e)"
    unfolding Errorf_close_def error.sel sublist_def
    by (metis append.assoc append_Nil2)
  ultimately show ?thesis by blast
qed

text \<open>On the sample host, container \<open>c5\<close>.\<close>

theorem fetchContainerStats_error_chaining_witness:
  "\<exists>e. snd (fst (fetchContainerStats (sample_shim (nil_slice, None)) \<lparr>ID = ''c5''\<rparr> 0)) = Some e
     \<and> Error e = ''failed to close container after error no statistics; close error: close failed''
     \<and> sublist ''no statistics'' (Error e) \<and> sublist ''close failed'' (Error e)"
proof -
  let ?k = "sample_Container (zero_Statistics, Some (errors_New ''no statistics''))
               (Some (errors_New ''close failed''))"
  have h1: "OpenContainer (sample_shim (nil_slice, None)) (ID \<lparr>ID = ''c5''\<rparr>) 0 = (Inr ?k, 1)"
    by (simp add: sample_defs)
  have h2: "Statistics ?k 1 = ((zero_Statistics, Some (errors_New ''no statistics'')), 2)"
    by (simp add: sample_defs)
  have h3: "Close ?k 2 = (Some (errors_New ''close failed''), 3)"
    by (simp add: sample_defs)
  show ?thesis
    using fetchContainerStats_error_chaining [OF h1 h2 h3] by simp
qed

subsection \<open>Each adapter is counted once, the first time\<close>

text \<open>
  C3. In the result of \<open>hcsStatsToNetworkStats\<close> no two interfaces have the same name, every
  interface is one of the resolved ones, and for every resolved interface \<open>j\<close> the result
  holds exactly one interface with the name of \<open>j\<close>: the first resolved interface with that
  name, with the received and sent bytes of its counter.
\<close>

theorem hcsStatsToNetworkStats_dedup:
  assumes "fst (hcsStatsToNetworkStats shim timestamp hcsStats w) = Some result"
  shows "distinct (map InterfaceStats.Name (elems (Interfaces result)))
       \<and> set (elems (Interfaces result)) \<subseteq> set (resolved shim hcsStats w)
       \<and> (\<forall>j \<in> set (resolved shim hcsStats w).
            \<exists>first. find (\<lambda>i. InterfaceStats.Name i = InterfaceStats.Name j) (resolved shim hcsStats w) = Some first
              \<and> filter (\<lambda>i. InterfaceStats.Name i = InterfaceStats.Name j) (elems (Interfaces result)) = [first])"
proof -
  have r: "elems (Interfaces result) = first_wins {} (resolved shim hcsStats w)"
    using assms by (auto simp: hcsStatsToNetworkStats_eq)
  show ?thesis
    unfolding r using first_wins_distinct first_wins_subset first_wins_filter [of _ _ "{}"]
    by auto
qed

text \<open>On the sample host \<open>ep1\<close> and \<open>ep4\<close> both resolve to \<open>eth0\<close>; the entry kept is that
  of \<open>ep1\<close>.\<close>

theorem hcsStatsToNetworkStats_dedup_witness:
  "filter (\<lambda>i. InterfaceStats.Name i = ''eth0'')
     (elems (Interfaces (the (fst (hcsStatsToNetworkStats (sample_shim (nil_slice, None)) 1
                                     (Slice c1_counters) 0))))) =
     [\<lparr>Name = ''eth0'', RxBytes = Some 100, TxBytes = Some 50\<rparr>]
   \<and> distinct (map InterfaceStats.Name
        (elems (Interfaces (the (fst (hcsStatsToNetworkStats (sample_shim (nil_slice, None)) 1
                                        (Slice c1_counters) 0))))))"
proof -
  have h: "fst (hcsStatsToNetworkStats (sample_shim (nil_slice, None)) 1 (Slice c1_counters) 0) =
             Some \<lparr>Time = 1, InterfaceStats = \<lparr>Name = ''eth0'', RxBytes = Some 100, TxBytes = Some 50\<rparr>,
                   Interfaces = Slice c1_interfaces\<rparr>"
    by (simp add: sample_c1_aggregate)
  show ?thesis
    using hcsStatsToNetworkStats_dedup [OF h] by (simp add: h sample_c1_resolved)
qed

subsection \<open>The primary interface\<close>

text \<open>
  C4. When the interfaces of the result of \<open>hcsStatsToNetworkStats\<close> are not empty, the embedded
  \<^verbatim>\<open>InterfaceStats\<close> of the result is equal to the first of them; it is a field holding a
  struct value, not a pointer into the slice. When there is no counter, the interfaces are
  empty and the embedded \<^verbatim>\<open>InterfaceStats\<close> is the zero value, which stands for an absent
  primary interface.
\<close>

theorem hcsStatsToNetworkStats_primary:
  assumes "fst (hcsStatsToNetworkStats shim timestamp hcsStats w) = Some result"
  shows "(elems (Interfaces result) \<noteq> [] \<longrightarrow> InterfaceStats result = elems (Interfaces result) ! 0)
       \<and> (len hcsStats = 0 \<longrightarrow>
            elems (Interfaces result) = [] \<and> InterfaceStats result = zero_InterfaceStats)"
proof -
  have r: "result = \<lparr>Time = timestamp,
            InterfaceStats = (case first_wins {} (resolved shim hcsStats w) of
                                [] \<Rightarrow> zero_InterfaceStats | i # rest \<Rightarrow> i),
            Interfaces = Slice (first_wins {} (resolved shim hcsStats w))\<rparr>"
    using assms by (simp add: hcsStatsToNetworkStats_eq)
  have "len hcsStats = 0 \<Longrightarrow> resolved shim hcsStats w = []"
    by (simp add: len_def resolved_def)
  then show ?thesis
    unfolding r by (auto split: list.splits)
qed

text \<open>On the sample host, for the counters of \<open>c1\<close> and for no counters.\<close>

theorem hcsStatsToNetworkStats_primary_witness:
  "InterfaceStats (the (fst (hcsStatsToNetworkStats (sample_shim (nil_slice, None)) 1 (Slice c1_counters) 0))) =
     \<lparr>Name = ''eth0'', RxBytes = Some 100, TxBytes = Some 50\<rparr>
   \<and> InterfaceStats (the (fst (hcsStatsToNetworkStats (sample_shim (nil_slice, None)) 3 nil_slice 0))) =
       zero_InterfaceStats"
proof -
  have h1: "fst (hcsStatsToNetworkStats (sample_shim (nil_slice, None)) 1 (Slice c1_counters) 0) =
             Some \<lparr>Time = 1, InterfaceStats = \<lparr>Name = ''eth0'', RxBytes = Some 100, TxBytes = Some 50\<rparr>,
                   Interfaces = Slice c1_interfaces\<rparr>"
    by (simp add: sample_c1_aggregate)
  have h2: "fst (hcsStatsToNetworkStats (sample_shim (nil_slice, None)) 3 nil_slice 0) =
             Some \<lparr>Time = 3, InterfaceStats = zero_InterfaceStats, Interfaces = Slice []\<rparr>"
    by (simp add: code_defs)
  show ?thesis
    using hcsStatsToNetworkStats_primary [OF h1] hcsStatsToNetworkStats_primary [OF h2] h1 h2
    by (simp add: c1_interfaces_def len_def)
qed

subsection \<open>One unknown endpoint does not drop the others\<close>

text \<open>
  C5. On every host, for every sequence of counters and every host state,
  \<open>hcsStatsToNetworkStats\<close> returns a result, after one resolution per counter, and the
  interfaces of the result are the resolved interfaces of all the counters, in input order,
  each name kept once. A counter whose resolution fails is the only one passed over: the
  loop goes on with the counters after it and the result as it was, and the resolved
  interfaces are those of the counters before it followed by those of the counters after it.
  Given three counters of which the first and the third resolve, to two different adapters,
  and the second fails to resolve, the result holds the interfaces of the first and of the
  third counter, in this order.
\<close>

theorem hcsStatsToNetworkStats_endpoint_isolation:
  "(\<forall>counters v. \<exists>r.
       hcsStatsToNetworkStats shim timestamp counters v =
         (Some r, snd (resolve_all shim (elems counters) v))
       \<and> Interfaces r = Slice (first_wins {} (resolved shim counters v)))
   \<and> (\<forall>stat rest result adapters v err v1.
         GetHNSEndpointByID shim (EndpointId stat) v = (Inl err, v1) \<longrightarrow>
         hcsStats_range shim (stat # rest) result adapters v =
           hcsStats_range shim rest result adapters v1)
   \<and> (\<forall>counters before bad after v err v2.
         elems counters = before @ bad # after
         \<and> GetHNSEndpointByID shim (EndpointId bad) (snd (resolve_all shim before v)) = (Inl err, v2) \<longrightarrow>
         resolved shim counters v = resolved shim (Slice before) v @ resolved shim (Slice after) v2)
   \<and> (GetHNSEndpointByID shim (EndpointId s1) w = (Inr e1, w1)
        \<and> GetHNSEndpointByID shim (EndpointId s2) w1 = (Inl err2, w2)
        \<and> GetHNSEndpointByID shim (EndpointId s3) w2 = (Inr e3, w3)
        \<and> HNSEndpoint.Name e1 \<noteq> HNSEndpoint.Name e3
        \<and> elems hcsStats = [s1, s2, s3] \<longrightarrow>
        (\<exists>r. hcsStatsToNetworkStats shim timestamp hcsStats w = (Some r, w3)
           \<and> Interfaces r =
                Slice [\<lparr>Name = HNSEndpoint.Name e1, RxBytes = Some (BytesReceived s1),
                        TxBytes = Some (BytesSent s1)\<rparr>,
                       \<lparr>Name = HNSEndpoint.Name e3, RxBytes = Some (BytesReceived s3),
                        TxBytes = Some (BytesSent s3)\<rparr>]))"
proof (intro conjI allI impI)
  fix counters v
  show "\<exists>r. hcsStatsToNetworkStats shim timestamp counters v =
               (Some r, snd (resolve_all shim (elems counters) v))
           \<and> Interfaces r = Slice (first_wins {} (resolved shim counters v))"
    by (simp add: hcsStatsToNetworkStats_eq)
next
  fix stat :: hcsshim_NetworkStats and rest result adapters v err v1
  assume "GetHNSEndpointByID shim (EndpointId stat) v = (Inl err, v1)"
  then show "hcsStats_range shim (stat # rest) result adapters v =
               hcsStats_range shim rest result adapters v1"
    by (rule hcsStats_range_skips)
next
  fix counters before bad after v err v2
  assume "elems counters = before @ bad # after
         \<and> GetHNSEndpointByID shim (EndpointId bad) (snd (resolve_all shim before v)) = (Inl err, v2)"
  then have split: "elems counters = before @ bad # after"
    and fails: "GetHNSEndpointByID shim (EndpointId bad) (snd (resolve_all shim before v)) = (Inl err, v2)"
    by simp_all
  show "resolved shim counters v = resolved shim (Slice before) v @ resolved shim (Slice after) v2"
    by (rule resolved_skips [OF split fails])
next
  assume a: "GetHNSEndpointByID shim (EndpointId s1) w = (Inr e1, w1)
        \<and> GetHNSEndpointByID shim (EndpointId s2) w1 = (Inl err2, w2)
        \<and> GetHNSEndpointByID shim (EndpointId s3) w2 = (Inr e3, w3)
        \<and> HNSEndpoint.Name e1 \<noteq> HNSEndpoint.Name e3
        \<and> elems hcsStats = [s1, s2, s3]"
  then have r1: "hcsStatsToInterfaceStats shim s1 w =
                   (Inr \<lparr>Name = HNSEndpoint.Name e1, RxBytes = Some (BytesReceived s1),
                          TxBytes = Some (BytesSent s1)\<rparr>, w1)"
    and r2: "hcsStatsToInterfaceStats shim s2 w1 = (Inl err2, w2)"
    and r3: "hcsStatsToInterfaceStats shim s3 w2 =
                   (Inr \<lparr>Name = HNSEndpoint.Name e3, RxBytes = Some (BytesReceived s3),
                          TxBytes = Some (BytesSent s3)\<rparr>, w3)"
    by (simp_all add: hcsStatsToInterfaceStats_found hcsStatsToInterfaceStats_fails)
  from a have three: "elems hcsStats = [s1, s2, s3]"
    and ne: "HNSEndpoint.Name e1 \<noteq> HNSEndpoint.Name e3"
    by simp_all
  have ra: "resolve_all shim (elems hcsStats) w =
          ([Inr \<lparr>Name = HNSEndpoint.Name e1, RxBytes = Some (BytesReceived s1),
                        TxBytes = Some (BytesSent s1)\<rparr>, Inl err2,
            Inr \<lparr>Name = HNSEndpoint.Name e3, RxBytes = Some (BytesReceived s3),
                        TxBytes = Some (BytesSent s3)\<rparr>], w3)"
    unfolding three by (simp add: r1 r2 r3)
  show "\<exists>r. hcsStatsToNetworkStats shim timestamp hcsStats w = (Some r, w3)
           \<and> Interfaces r =
                Slice [\<lparr>Name = HNSEndpoint.Name e1, RxBytes = Some (BytesReceived s1),
                        TxBytes = Some (BytesSent s1)\<rparr>,
                       \<lparr>Name = HNSEndpoint.Name e3, RxBytes = Some (BytesReceived s3),
                        TxBytes = Some (BytesSent s3)\<rparr>]"
    using ne ne [symmetric] by (simp add: hcsStatsToNetworkStats_eq resolved_def ra)
qed

text \<open>On the sample host, with endpoints \<open>ep1\<close>, \<open>ep2\<close> (unknown) and \<open>ep3\<close>, and with the
  unknown endpoint first, when nothing has been collected yet.\<close>

theorem hcsStatsToNetworkStats_endpoint_isolation_witness:
  "(\<exists>r. hcsStatsToNetworkStats (sample_shim (nil_slice, None)) 1
          (Slice [counter ''ep1'' 100 50, counter ''ep2'' 7 8, counter ''ep3'' 30 40]) 0 = (Some r, 3)
      \<and> Interfaces r =
           Slice [\<lparr>Name = ''eth0'', RxBytes = Some 100, TxBytes = Some 50\<rparr>,
                  \<lparr>Name = ''eth1'', RxBytes = Some 30, TxBytes = Some 40\<rparr>])
   \<and> (\<exists>r. hcsStatsToNetworkStats (sample_shim (nil_slice, None)) 1
          (Slice [counter ''ep2'' 7 8, counter ''ep1'' 100 50, counter ''ep3'' 30 40]) 0 = (Some r, 3)
      \<and> Interfaces r =
           Slice [\<lparr>Name = ''eth0'', RxBytes = Some 100, TxBytes = Some 50\<rparr>,
                  \<lparr>Name = ''eth1'', RxBytes = Some 30, TxBytes = Some 40\<rparr>])
   \<and> resolved (sample_shim (nil_slice, None))
        (Slice [counter ''ep2'' 7 8, counter ''ep1'' 100 50, counter ''ep3'' 30 40]) 0 =
       resolved (sample_shim (nil_slice, None)) (Slice []) 0
       @ resolved (sample_shim (nil_slice, None)) (Slice [counter ''ep1'' 100 50, counter ''ep3'' 30 40]) 1"
proof -
  let ?shim = "sample_shim (nil_slice, None)"
  let ?c1 = "counter ''ep1'' 100 50" and ?c2 = "counter ''ep2'' 7 8" and ?c3 = "counter ''ep3'' 30 40"
  note inst = hcsStatsToNetworkStats_endpoint_isolation
      [of ?shim 1 ?c1 0 "\<lparr>HNSEndpoint.Name = ''eth0''\<rparr>" 1 ?c2 "errors_New ''endpoint not found''" 2
          ?c3 "\<lparr>HNSEndpoint.Name = ''eth1''\<rparr>" 3 "Slice [?c1, ?c2, ?c3]"]
  have h: "GetHNSEndpointByID ?shim (EndpointId ?c1) 0 = (Inr \<lparr>HNSEndpoint.Name = ''eth0''\<rparr>, 1)
        \<and> GetHNSEndpointByID ?shim (EndpointId ?c2) 1 = (Inl (errors_New ''endpoint not found''), 2)
        \<and> GetHNSEndpointByID ?shim (EndpointId ?c3) 2 = (Inr \<lparr>HNSEndpoint.Name = ''eth1''\<rparr>, 3)
        \<and> HNSEndpoint.Name \<lparr>HNSEndpoint.Name = ''eth0''\<rparr> \<noteq> HNSEndpoint.Name \<lparr>HNSEndpoint.Name = ''eth1''\<rparr>
        \<and> elems (Slice [?c1, ?c2, ?c3]) = [?c1, ?c2, ?c3]"
    by (simp add: sample_defs)
  have scenario: "\<exists>r. hcsStatsToNetworkStats ?shim 1 (Slice [?c1, ?c2, ?c3]) 0 = (Some r, 3)
      \<and> Interfaces r =
           Slice [\<lparr>Name = ''eth0'', RxBytes = Some 100, TxBytes = Some 50\<rparr>,
                  \<lparr>Name = ''eth1'', RxBytes = Some 30, TxBytes = Some 40\<rparr>]"
    using inst h by (simp add: counter_def)
  have g: "elems (Slice [?c2, ?c1, ?c3]) = [] @ ?c2 # [?c1, ?c3]
         \<and> GetHNSEndpointByID ?shim (EndpointId ?c2) (snd (resolve_all ?shim [] 0)) =
             (Inl (errors_New ''endpoint not found''), 1)"
    by (simp add: sample_defs)
  have skipped: "resolved ?shim (Slice [?c2, ?c1, ?c3]) 0 =
                   resolved ?shim (Slice []) 0 @ resolved ?shim (Slice [?c1, ?c3]) 1"
    using inst g by blast
  have after: "resolved ?shim (Slice [?c1, ?c3]) 1 =
                 [\<lparr>Name = ''eth0'', RxBytes = Some 100, TxBytes = Some 50\<rparr>,
                  \<lparr>Name = ''eth1'', RxBytes = Some 30, TxBytes = Some 40\<rparr>]"
    by (simp add: resolved_def hcsStatsToInterfaceStats_def sample_defs)
  have state: "snd (resolve_all ?shim (elems (Slice [?c2, ?c1, ?c3])) 0) = 3"
    by (simp add: hcsStatsToInterfaceStats_def sample_defs)
  have general: "\<exists>r. hcsStatsToNetworkStats ?shim 1 (Slice [?c2, ?c1, ?c3]) 0 = (Some r, 3)
      \<and> Interfaces r =
           Slice [\<lparr>Name = ''eth0'', RxBytes = Some 100, TxBytes = Some 50\<rparr>,
                  \<lparr>Name = ''eth1'', RxBytes = Some 30, TxBytes = Some 40\<rparr>]"
  proof -
    from inst obtain r where
      "hcsStatsToNetworkStats ?shim 1 (Slice [?c2, ?c1, ?c3]) 0 =
         (Some r, snd (resolve_all ?shim (elems (Slice [?c2, ?c1, ?c3])) 0))"
      and "Interfaces r = Slice (first_wins {} (resolved ?shim (Slice [?c2, ?c1, ?c3]) 0))"
      by blast
    then show ?thesis
      unfolding state skipped after by (simp add: resolved_def)
  qed
  show ?thesis
    using scenario general skipped by blast
qed

subsection \<open>One failing container does not drop the others\<close>

text \<open>
  C6. Whenever \<open>fetchContainerStats\<close> fails for a container, the loop of
  \<open>listContainerNetworkStats\<close> goes on with the remaining containers and the map as it was.
  Given an enumeration of three containers with different identifiers, where the first and
  the third are fetched without error and have at least one counter, and the second cannot
  be opened, \<open>listContainerNetworkStats\<close> returns no error and a map that holds the results of
  the first and of the third container and nothing else.
\<close>

theorem listContainerNetworkStats_container_isolation:
  assumes shim: "shim = newHcsShim windowshim p"
    and enum: "GetContainers shim \<lparr>Types = Slice [''Container'']\<rparr> w = ((containers, None), w1)"
    and three: "elems containers = [c1, c2, c3]"
    and ids: "distinct [ID c1, ID c2, ID c3]"
    and f1: "fetchContainerStats shim c1 w1 = ((st1, None), w2)"
    and n1: "0 < len (Network st1)"
    and a1: "hcsStatsToNetworkStats shim (Timestamp st1) (Network st1) w2 = (r1, w3)"
    and o2: "OpenContainer shim (ID c2) w3 = (Inl err, w4)"
    and f3: "fetchContainerStats shim c3 w4 = ((st3, None), w5)"
    and n3: "0 < len (Network st3)"
    and a3: "hcsStatsToNetworkStats shim (Timestamp st3) (Network st3) w5 = (r3, w6)"
  shows "(\<forall>c rest stats v cstats e v1.
            fetchContainerStats shim c v = ((cstats, Some e), v1) \<longrightarrow>
            containers_range shim (c # rest) stats v = containers_range shim rest stats v1)
       \<and> (\<exists>stats. listContainerNetworkStats windowshim p w = ((Some stats, None), w6)
             \<and> stats (ID c1) = Some r1 \<and> stats (ID c2) = None \<and> stats (ID c3) = Some r3
             \<and> dom stats = {ID c1, ID c3})"
proof -
  have skip: "\<forall>c rest stats v cstats e v1.
            fetchContainerStats shim c v = ((cstats, Some e), v1) \<longrightarrow>
            containers_range shim (c # rest) stats v = containers_range shim rest stats v1"
    by simp
  have f2: "fetchContainerStats shim c2 w3 = ((zero_Statistics, Some err), w4)"
    using o2 by (rule fetchContainerStats_open_fails)
  have "containers_range shim [c1, c2, c3] Map.empty w1 =
          containers_range shim [c2, c3] [ID c1 \<mapsto> r1] w3"
    by (rule containers_range_entry [OF f1 n1 a1])
  also have "\<dots> = containers_range shim [c3] [ID c1 \<mapsto> r1] w4"
    by (rule containers_range_fetch_fails [OF f2])
  also have "\<dots> = containers_range shim [] [ID c1 \<mapsto> r1, ID c3 \<mapsto> r3] w6"
    by (rule containers_range_entry [OF f3 n3 a3])
  finally have loop: "containers_range shim [c1, c2, c3] Map.empty w1 =
                        ([ID c1 \<mapsto> r1, ID c3 \<mapsto> r3], w6)"
    by simp
  have "listContainerNetworkStats windowshim p w = ((Some [ID c1 \<mapsto> r1, ID c3 \<mapsto> r3], None), w6)"
    using listContainerNetworkStats_enumerated [of windowshim p w containers w1] enum loop
    unfolding shim three by simp
  moreover have "[ID c1 \<mapsto> r1, ID c3 \<mapsto> r3] (ID c1) = Some r1"
    "[ID c1 \<mapsto> r1, ID c3 \<mapsto> r3] (ID c2) = None"
    "[ID c1 \<mapsto> r1, ID c3 \<mapsto> r3] (ID c3) = Some r3"
    "dom [ID c1 \<mapsto> r1, ID c3 \<mapsto> r3] = {ID c1, ID c3}"
    using ids by auto
  ultimately have "\<exists>stats. listContainerNetworkStats windowshim p w = ((Some stats, None), w6)
             \<and> stats (ID c1) = Some r1 \<and> stats (ID c2) = None \<and> stats (ID c3) = Some r3
             \<and> dom stats = {ID c1, ID c3}"
    by blast
  with skip show ?thesis by (rule conjI)
qed

text \<open>On the sample host, with the containers \<open>c1\<close>, \<open>c2\<close> and \<open>c3\<close>.\<close>

theorem listContainerNetworkStats_container_isolation_witness:
  "\<exists>stats. listContainerNetworkStats down_shim (sample_provider [''c1'', ''c2'', ''c3'']) 0 =
             ((Some stats, None), 13)
     \<and> stats ''c1'' = Some (Some c1_result) \<and> stats ''c2'' = None
     \<and> stats ''c3'' = Some (Some c3_result) \<and> dom stats = {''c1'', ''c3''}"
proof -
  let ?ids = "[''c1'', ''c2'', ''c3'']"
  let ?shim = "sample_shim (containers_of ?ids, None)"
  let ?st1 = "\<lparr>Timestamp = 1, Network = Slice c1_counters\<rparr>"
  let ?st3 = "\<lparr>Timestamp = 2, Network = Slice [counter ''ep3'' 5 6]\<rparr>"
  have shim: "?shim = newHcsShim down_shim (sample_provider ?ids)"
    by (simp add: sample_provider_def newHcsShim_def)
  have enum: "GetContainers ?shim \<lparr>Types = Slice [''Container'']\<rparr> 0 = ((containers_of ?ids, None), 1)"
    by (simp add: sample_shim_def)
  have three: "elems (containers_of ?ids) = [\<lparr>ID = ''c1''\<rparr>, \<lparr>ID = ''c2''\<rparr>, \<lparr>ID = ''c3''\<rparr>]"
    by (simp add: containers_of_def)
  have ids: "distinct [ID \<lparr>ID = ''c1''\<rparr>, ID \<lparr>ID = ''c2''\<rparr>, ID \<lparr>ID = ''c3''\<rparr>]"
    by simp
  have f1: "fetchContainerStats ?shim \<lparr>ID = ''c1''\<rparr> 1 = ((?st1, None), 4)"
    by (simp add: fetchContainerStats_def sample_shim_def sample_open_def sample_Container_def)
  have n1: "0 < len (Network ?st1)"
    by (simp add: len_def c1_counters_def)
  have a1: "hcsStatsToNetworkStats ?shim (Timestamp ?st1) (Network ?st1) 4 = (Some c1_result, 8)"
    by (simp add: sample_c1_aggregate c1_result_def)
  have o2: "OpenContainer ?shim (ID \<lparr>ID = ''c2''\<rparr>) 8 = (Inl (errors_New ''container not found''), 9)"
    by (simp add: sample_shim_def sample_open_def)
  have f3: "fetchContainerStats ?shim \<lparr>ID = ''c3''\<rparr> 9 = ((?st3, None), 12)"
    by (simp add: fetchContainerStats_def sample_shim_def sample_open_def sample_Container_def)
  have n3: "0 < len (Network ?st3)"
    by (simp add: len_def)
  have a3: "hcsStatsToNetworkStats ?shim (Timestamp ?st3) (Network ?st3) 12 = (Some c3_result, 13)"
    by (simp add: code_defs sample_shim_def sample_endpoint_def counter_def c3_result_def)
  show ?thesis
    using listContainerNetworkStats_container_isolation [OF shim enum three ids f1 n1 a1 o2 f3 n3 a3]
    by simp
qed

subsection \<open>Only a failed enumeration is reported\<close>

text \<open>
  C7. The error returned by \<open>listContainerNetworkStats\<close> is the error returned by
  \<^verbatim>\<open>GetContainers\<close>, nil when the enumeration succeeded, on every host. When the enumeration
  failed the map returned is nil; when it succeeded the map is the one the loop over the
  enumerated containers has filled.
\<close>

theorem listContainerNetworkStats_enumeration_error:
  "snd (fst (listContainerNetworkStats windowshim p w)) =
     snd (fst (GetContainers (newHcsShim windowshim p) \<lparr>Types = Slice [''Container'']\<rparr> w))
   \<and> fst (fst (listContainerNetworkStats windowshim p w)) =
       (case GetContainers (newHcsShim windowshim p) \<lparr>Types = Slice [''Container'']\<rparr> w of
          ((containers, Some err), w1) \<Rightarrow> None
        | ((containers, None), w1) \<Rightarrow>
            Some (fst (containers_range (newHcsShim windowshim p) (elems containers) Map.empty w1)))"
  by (simp add: listContainerNetworkStats_def Let_def split: prod.splits option.splits)

text \<open>On a host that is down, and on the sample host with the single container \<open>c2\<close>, which
  cannot be opened.\<close>

theorem listContainerNetworkStats_enumeration_error_witness:
  "fst (listContainerNetworkStats down_shim \<lparr>hcsshimInterface = None\<rparr> 0) =
     (None, Some (errors_New ''host down''))
   \<and> fst (listContainerNetworkStats down_shim (sample_provider [''c2'']) 0) = (Some Map.empty, None)"
  using listContainerNetworkStats_enumeration_error [of down_shim "\<lparr>hcsshimInterface = None\<rparr>" 0]
    listContainerNetworkStats_enumeration_error [of down_shim "sample_provider [''c2'']" 0]
  by (simp add: prod_eq_iff sample_defs fetchContainerStats_def)

subsection \<open>Which containers have an entry\<close>

text \<open>
  C8. Let the enumeration succeed and let \<open>c\<close> be an enumerated container whose identifier no
  other enumerated container has. Then the map returned by \<open>listContainerNetworkStats\<close> has an
  entry for \<open>c\<close> if and only if \<open>fetchContainerStats\<close>, run for \<open>c\<close> after the containers before
  it, returned no error and at least one counter. The entry is then the result of
  \<open>hcsStatsToNetworkStats\<close> for these counters; if every endpoint resolution of these counters
  fails, the entry is still there, with an empty sequence of interfaces.
\<close>

theorem listContainerNetworkStats_entry_iff:
  assumes shim: "shim = newHcsShim windowshim p"
    and enum: "GetContainers shim \<lparr>Types = Slice [''Container'']\<rparr> w = ((containers, None), w1)"
    and split: "elems containers = before @ c # after"
    and uniq: "ID c \<notin> ID ` set (before @ after)"
    and pre: "containers_range shim before Map.empty w1 = (stats0, w2)"
    and fetch: "fetchContainerStats shim c w2 = ((cstats, err), w3)"
  shows "\<exists>stats. fst (listContainerNetworkStats windowshim p w) = (Some stats, None)
           \<and> (ID c \<in> dom stats) = (err = None \<and> 0 < len (Network cstats))
           \<and> (err = None \<and> 0 < len (Network cstats) \<longrightarrow>
                stats (ID c) =
                  Some (fst (hcsStatsToNetworkStats shim (Timestamp cstats) (Network cstats) w3)))
           \<and> (err = None \<and> 0 < len (Network cstats)
                \<and> list_all isl (fst (resolve_all shim (elems (Network cstats)) w3)) \<longrightarrow>
                stats (ID c) =
                  Some (Some \<lparr>Time = Timestamp cstats, InterfaceStats = zero_InterfaceStats,
                              Interfaces = Slice []\<rparr>))"
proof -
  let ?entry = "hcsStatsToNetworkStats shim (Timestamp cstats) (Network cstats) w3"
  let ?ok = "err = None \<and> 0 < len (Network cstats)"
  have before: "stats0 (ID c) = None"
    using containers_range_other [of "ID c" before shim Map.empty w1] uniq pre by auto
  have "ID c \<notin> ID ` set after"
    using uniq by auto
  then have after: "\<And>m v. fst (containers_range shim after m v) (ID c) = m (ID c)"
    by (rule containers_range_other)
  obtain stats1 v1 where step: "containers_range shim [c] stats0 w2 = (stats1, v1)"
    by (cases "containers_range shim [c] stats0 w2")
  have s1: "stats1 (ID c) = (if ?ok then Some (fst ?entry) else None)"
    using step fetch before by (auto split: option.splits prod.splits if_splits)
  let ?stats = "fst (containers_range shim after stats1 v1)"
  have "containers_range shim (before @ [c] @ after) Map.empty w1 =
          containers_range shim after stats1 v1"
    by (simp only: containers_range_append pre step prod.case)
  then have whole: "fst (listContainerNetworkStats windowshim p w) = (Some ?stats, None)"
    using listContainerNetworkStats_enumerated [of windowshim p w containers w1] enum
    unfolding shim split by simp
  have at_c: "?stats (ID c) = (if ?ok then Some (fst ?entry) else None)"
    using after [of stats1 v1] s1 by simp
  have empty: "list_all isl (fst (resolve_all shim (elems (Network cstats)) w3)) \<Longrightarrow>
               fst ?entry = Some \<lparr>Time = Timestamp cstats, InterfaceStats = zero_InterfaceStats,
                              Interfaces = Slice []\<rparr>"
    by (simp add: hcsStatsToNetworkStats_eq resolved_def successes_all_failed)
  show ?thesis
    using whole at_c empty by (intro exI [of _ ?stats]) (auto simp: dom_def)
qed

text \<open>On the sample host, with \<open>c4\<close> (no counters), \<open>c7\<close> (one counter, of an unknown endpoint)
  and \<open>c2\<close> (cannot be opened): \<open>c7\<close> has an entry without interfaces.\<close>

theorem listContainerNetworkStats_entry_iff_witness:
  "\<exists>stats. fst (listContainerNetworkStats down_shim (sample_provider [''c4'', ''c7'', ''c2'']) 0) =
             (Some stats, None)
     \<and> ''c7'' \<in> dom stats
     \<and> stats ''c7'' = Some (Some \<lparr>Time = 5, InterfaceStats = zero_InterfaceStats, Interfaces = Slice []\<rparr>)"
proof -
  let ?ids = "[''c4'', ''c7'', ''c2'']"
  let ?shim = "sample_shim (containers_of ?ids, None)"
  let ?st = "\<lparr>Timestamp = 5, Network = Slice [counter ''ep2'' 3 4]\<rparr>"
  have shim: "?shim = newHcsShim down_shim (sample_provider ?ids)"
    by (simp add: sample_provider_def newHcsShim_def)
  have enum: "GetContainers ?shim \<lparr>Types = Slice [''Container'']\<rparr> 0 = ((containers_of ?ids, None), 1)"
    by (simp add: sample_shim_def)
  have split: "elems (containers_of ?ids) = [\<lparr>ID = ''c4''\<rparr>] @ \<lparr>ID = ''c7''\<rparr> # [\<lparr>ID = ''c2''\<rparr>]"
    by (simp add: containers_of_def)
  have uniq: "ID \<lparr>ID = ''c7''\<rparr> \<notin> ID ` set ([\<lparr>ID = ''c4''\<rparr>] @ [\<lparr>ID = ''c2''\<rparr>])"
    by simp
  have pre: "containers_range ?shim [\<lparr>ID = ''c4''\<rparr>] Map.empty 1 = (Map.empty, 4)"
    by (simp add: fetchContainerStats_def sample_shim_def sample_open_def sample_Container_def len_def)
  have fetch: "fetchContainerStats ?shim \<lparr>ID = ''c7''\<rparr> 4 = ((?st, None), 7)"
    by (simp add: fetchContainerStats_def sample_shim_def sample_open_def sample_Container_def)
  have fails: "list_all isl (fst (resolve_all ?shim (elems (Network ?st)) 7))"
    by (simp add: hcsStatsToInterfaceStats_def sample_shim_def sample_endpoint_def counter_def)
  show ?thesis
    using listContainerNetworkStats_entry_iff [OF shim enum split uniq pre fetch] fails
    by (auto simp: len_def)
qed

subsection \<open>A failing release alone fails the fetch\<close>

text \<open>
  C9. If the container is opened, \<^verbatim>\<open>Statistics\<close> succeeds and \<^verbatim>\<open>Close\<close> fails with \<open>closeErr\<close>,
  then \<open>fetchContainerStats\<close> returns the statistics together with \<open>closeErr\<close> as its error, and
  the loop of \<open>listContainerNetworkStats\<close> goes on to the remaining containers without adding
  an entry for this one.
\<close>

theorem fetchContainerStats_close_error_only:
  assumes "OpenContainer shim (ID c) w = (Inr container, w1)"
      and "Statistics container w1 = ((stats, None), w2)"
      and "Close container w2 = (Some closeErr, w3)"
  shows "fetchContainerStats shim c w = ((stats, Some closeErr), w3)
       \<and> containers_range shim (c # rest) m w = containers_range shim rest m w3"
  using fetchContainerStats_opened [OF assms] by simp

text \<open>On the sample host, container \<open>c6\<close>.\<close>

theorem fetchContainerStats_close_error_only_witness:
  "fetchContainerStats (sample_shim (nil_slice, None)) \<lparr>ID = ''c6''\<rparr> 0 =
     ((\<lparr>Timestamp = 4, Network = Slice [counter ''ep1'' 9 9]\<rparr>, Some (errors_New ''close failed'')), 3)
   \<and> containers_range (sample_shim (nil_slice, None)) [\<lparr>ID = ''c6''\<rparr>] Map.empty 0 = (Map.empty, 3)"
proof -
  let ?k = "sample_Container (\<lparr>Timestamp = 4, Network = Slice [counter ''ep1'' 9 9]\<rparr>, None)
               (Some (errors_New ''close failed''))"
  have h1: "OpenContainer (sample_shim (nil_slice, None)) (ID \<lparr>ID = ''c6''\<rparr>) 0 = (Inr ?k, 1)"
    by (simp add: sample_defs)
  have h2: "Statistics ?k 1 = ((\<lparr>Timestamp = 4, Network = Slice [counter ''ep1'' 9 9]\<rparr>, None), 2)"
    by (simp add: sample_defs)
  have h3: "Close ?k 2 = (Some (errors_New ''close failed''), 3)"
    by (simp add: sample_defs)
  show ?thesis
    using fetchContainerStats_close_error_only [OF h1 h2 h3, of "[]" Map.empty] by simp
qed

subsection \<open>The shape of the result of hcsStatsToNetworkStats\<close>

text \<open>
  C10. \<open>hcsStatsToNetworkStats\<close> always returns a pointer that is not nil, to a struct whose
  \<^verbatim>\<open>Interfaces\<close> is a slice that is not nil; when that slice is empty, the embedded
  \<^verbatim>\<open>InterfaceStats\<close> is the zero value: empty name, nil \<^verbatim>\<open>RxBytes\<close> and nil \<^verbatim>\<open>TxBytes\<close>.
\<close>

theorem hcsStatsToNetworkStats_result_shape:
  "\<exists>r xs. fst (hcsStatsToNetworkStats shim timestamp hcsStats w) = Some r
       \<and> Interfaces r = Slice xs
       \<and> (xs = [] \<longrightarrow> InterfaceStats r = \<lparr>Name = [], RxBytes = None, TxBytes = None\<rparr>)"
  by (auto simp: hcsStatsToNetworkStats_eq zero_InterfaceStats_def)

text \<open>On the sample host, for one counter of an unknown endpoint.\<close>

theorem hcsStatsToNetworkStats_result_shape_witness:
  "fst (hcsStatsToNetworkStats (sample_shim (nil_slice, None)) 5 (Slice [counter ''ep2'' 3 4]) 0) =
     Some \<lparr>Time = 5, InterfaceStats = \<lparr>Name = [], RxBytes = None, TxBytes = None\<rparr>,
           Interfaces = Slice []\<rparr>"
proof -
  have e: "Interfaces (the (fst (hcsStatsToNetworkStats (sample_shim (nil_slice, None)) 5
                                   (Slice [counter ''ep2'' 3 4]) 0))) = Slice []"
    by (simp add: code_defs sample_defs)
  have t: "Time (the (fst (hcsStatsToNetworkStats (sample_shim (nil_slice, None)) 5
                                   (Slice [counter ''ep2'' 3 4]) 0))) = 5"
    by (simp add: code_defs sample_defs)
  show ?thesis
    using hcsStatsToNetworkStats_result_shape
            [of "sample_shim (nil_slice, None)" 5 "Slice [counter ''ep2'' 3 4]" 0] e t
    by auto
qed

end
